theory Spec2Isabelle
  imports Main
begin

unbundle bit_operations_syntax

section \<open>The hashing primitive\<close>

subsection \<open>SHA-256\<close>

text \<open>
  \<^verbatim>\<open>calculateSHA256Hash\<close> feeds its argument to the SHA-256 implementation of the
  runtime (\<^verbatim>\<open>createHash('sha256')\<close>) and returns the lower-case hexadecimal digest.
  The digest function is modelled here as FIPS 180-4 defines it.  A 32-bit word is an
  \<^typ>\<open>int\<close> in the range \<open>0..<2^32\<close>; every addition is reduced \<open>mod 2 ^ 32\<close>
  where the standard adds modulo \<open>2^32\<close>, and the complement of a word is its
  exclusive-or with \<open>0xFFFFFFFF\<close>.
\<close>

type_synonym w32 = int

definition rotr :: "nat \<Rightarrow> w32 \<Rightarrow> w32" where
  "rotr n x = x div 2 ^ n + (x mod 2 ^ n) * 2 ^ (32 - n)"

definition shr :: "nat \<Rightarrow> w32 \<Rightarrow> w32" where
  "shr n x = x div 2 ^ n"

definition Ch :: "w32 \<Rightarrow> w32 \<Rightarrow> w32 \<Rightarrow> w32" where
  "Ch x y z = (x AND y) XOR ((x XOR 0xFFFFFFFF) AND z)"

definition Maj :: "w32 \<Rightarrow> w32 \<Rightarrow> w32 \<Rightarrow> w32" where
  "Maj x y z = (x AND y) XOR (x AND z) XOR (y AND z)"

definition bsig0 :: "w32 \<Rightarrow> w32" where
  "bsig0 x = rotr 2 x XOR rotr 13 x XOR rotr 22 x"

definition bsig1 :: "w32 \<Rightarrow> w32" where
  "bsig1 x = rotr 6 x XOR rotr 11 x XOR rotr 25 x"

definition ssig0 :: "w32 \<Rightarrow> w32" where
  "ssig0 x = rotr 7 x XOR rotr 18 x XOR shr 3 x"

definition ssig1 :: "w32 \<Rightarrow> w32" where
  "ssig1 x = rotr 17 x XOR rotr 19 x XOR shr 10 x"

definition K256 :: "w32 list" where
  "K256 = [
   0x428A2F98, 0x71374491, 0xB5C0FBCF, 0xE9B5DBA5, 0x3956C25B, 0x59F111F1, 0x923F82A4, 0xAB1C5ED5,
   0xD807AA98, 0x12835B01, 0x243185BE, 0x550C7DC3, 0x72BE5D74, 0x80DEB1FE, 0x9BDC06A7, 0xC19BF174,
   0xE49B69C1, 0xEFBE4786, 0x0FC19DC6, 0x240CA1CC, 0x2DE92C6F, 0x4A7484AA, 0x5CB0A9DC, 0x76F988DA,
   0x983E5152, 0xA831C66D, 0xB00327C8, 0xBF597FC7, 0xC6E00BF3, 0xD5A79147, 0x06CA6351, 0x14292967,
   0x27B70A85, 0x2E1B2138, 0x4D2C6DFC, 0x53380D13, 0x650A7354, 0x766A0ABB, 0x81C2C92E, 0x92722C85,
   0xA2BFE8A1, 0xA81A664B, 0xC24B8B70, 0xC76C51A3, 0xD192E819, 0xD6990624, 0xF40E3585, 0x106AA070,
   0x19A4C116, 0x1E376C08, 0x2748774C, 0x34B0BCB5, 0x391C0CB3, 0x4ED8AA4A, 0x5B9CCA4F, 0x682E6FF3,
   0x748F82EE, 0x78A5636F, 0x84C87814, 0x8CC70208, 0x90BEFFFA, 0xA4506CEB, 0xBEF9A3F7, 0xC67178F2]"

type_synonym hstate = "w32 \<times> w32 \<times> w32 \<times> w32 \<times> w32 \<times> w32 \<times> w32 \<times> w32"

definition H256 :: hstate where
  "H256 = (0x6A09E667, 0xBB67AE85, 0x3C6EF372, 0xA54FF53A,
           0x510E527F, 0x9B05688C, 0x1F83D9AB, 0x5BE0CD19)"

text \<open>
  The message schedule, produced from a sliding window \<open>w\<close> of the last sixteen words:
  the word sixteen places on is \<open>\<sigma>\<^sub>1(W\<^bsub>t-2\<^esub>) + W\<^bsub>t-7\<^esub> + \<sigma>\<^sub>0(W\<^bsub>t-15\<^esub>) + W\<^bsub>t-16\<^esub>\<close>.
\<close>

fun schedule :: "nat \<Rightarrow> w32 list \<Rightarrow> w32 list" where
  "schedule 0 w = []"
| "schedule (Suc n) w =
     hd w # schedule n (tl w @ [(ssig1 (w ! 14) + w ! 9 + ssig0 (w ! 1) + w ! 0) mod 2 ^ 32])"

fun round256 :: "hstate \<Rightarrow> w32 \<times> w32 \<Rightarrow> hstate" where
  "round256 (a, b, c, d, e, f, g, h) (k, w) =
     (let t1 = (h + bsig1 e + Ch e f g + k + w) mod 2 ^ 32;
          t2 = (bsig0 a + Maj a b c) mod 2 ^ 32
      in ((t1 + t2) mod 2 ^ 32, a, b, c, (d + t1) mod 2 ^ 32, e, f, g))"

fun add_state :: "hstate \<Rightarrow> hstate \<Rightarrow> hstate" where
  "add_state (a, b, c, d, e, f, g, h) (a', b', c', d', e', f', g', h') =
     ((a + a') mod 2 ^ 32, (b + b') mod 2 ^ 32, (c + c') mod 2 ^ 32, (d + d') mod 2 ^ 32,
      (e + e') mod 2 ^ 32, (f + f') mod 2 ^ 32, (g + g') mod 2 ^ 32, (h + h') mod 2 ^ 32)"

definition compress :: "hstate \<Rightarrow> w32 list \<Rightarrow> hstate" where
  "compress hs blk = add_state hs (foldl round256 hs (zip K256 (schedule 64 blk)))"

definition be32 :: "int list \<Rightarrow> w32" where
  "be32 bs = foldl (\<lambda>acc b. acc * 256 + b) 0 bs"

fun chunks :: "nat \<Rightarrow> 'a list \<Rightarrow> 'a list list" where
  "chunks n xs = (if n = 0 \<or> xs = [] then [] else take n xs # chunks n (drop n xs))"

definition be64 :: "int \<Rightarrow> int list" where
  "be64 n = map (\<lambda>i. (n div 256 ^ (7 - i)) mod 256) [0..<8]"

text \<open>Padding: the byte \<open>0x80\<close>, zero bytes up to 56 modulo 64, the bit length on 8 bytes.\<close>

definition pad256 :: "int list \<Rightarrow> int list" where
  "pad256 m = m @ [0x80] @ replicate ((64 - (length m + 9) mod 64) mod 64) 0
                @ be64 (8 * int (length m))"

definition sha256 :: "int list \<Rightarrow> hstate" where
  "sha256 m = foldl compress H256 (map (map be32 \<circ> chunks 4) (chunks 64 (pad256 m)))"

definition hexdigit :: "int \<Rightarrow> char" where
  "hexdigit n = ''0123456789abcdef'' ! nat n"

definition hex32 :: "w32 \<Rightarrow> string" where
  "hex32 w = map (\<lambda>i. hexdigit ((w div 16 ^ (7 - i)) mod 16)) [0..<8]"

fun hex_state :: "hstate \<Rightarrow> string" where
  "hex_state (a, b, c, d, e, f, g, h) = concat (map hex32 [a, b, c, d, e, f, g, h])"

text \<open>
  \<^verbatim>\<open>hash.update(data)\<close> hashes the UTF-8 encoding of the string.  A \<^typ>\<open>char\<close> stands
  for the code point of the same number (\<open>U+0000\<close> to \<open>U+00FF\<close>): below 128 it is one
  byte, from 128 on it is two.
\<close>

definition utf8 :: "string \<Rightarrow> int list" where
  "utf8 s = concat (map (\<lambda>c. let n = of_char c :: int in
       if n < 128 then [n] else [192 + n div 64, 128 + n mod 64]) s)"

definition calculateSHA256Hash :: "string \<Rightarrow> string" where
  "calculateSHA256Hash d = hex_state (sha256 (utf8 d))"

subsection \<open>Numbers\<close>

text \<open>
  A number of the program is a double.  The numbers that occur (\<^verbatim>\<open>index\<close>,
  \<^verbatim>\<open>timestamp\<close>, \<^verbatim>\<open>proof\<close>, \<^verbatim>\<open>amount\<close>, \<^verbatim>\<open>length\<close>) are integers, and a number
  is modelled by the \<^typ>\<open>int\<close> that is its value.  Not every integer is the value of
  a double: one of magnitude \<open>2^53\<close> or more is a 53-bit significand times a power of two,
  and the program never holds another.  \<open>round_double\<close> is the rounding of IEEE 754
  (to nearest, ties to the even significand) that gives the double for an exact integer
  result; infinities are not modelled, so the magnitudes stay below \<open>2^1024\<close>.
\<close>

function excess_bits :: "int \<Rightarrow> nat" where
  "excess_bits a = (if a < 2 ^ 53 then 0 else Suc (excess_bits (a div 2)))"
  by pat_completeness auto
termination
  by (relation "measure nat") auto

definition round_magnitude :: "int \<Rightarrow> int" where
  "round_magnitude a =
     (let ulp = 2 ^ excess_bits a; m = a div ulp; r = a mod ulp
      in if 2 * r < ulp then m * ulp
         else if ulp < 2 * r then (m + 1) * ulp
         else if even m then m * ulp else (m + 1) * ulp)"

definition round_double :: "int \<Rightarrow> int" where
  "round_double x = (if x < 0 then - round_magnitude (- x) else round_magnitude x)"

definition is_double :: "int \<Rightarrow> bool" where
  "is_double x = (round_double x = x \<and> \<bar>x\<bar> < 2 ^ 1024)"

text \<open>The operator \<^verbatim>\<open>+\<close> on two numbers: the exact sum, rounded.\<close>

definition js_add :: "int \<Rightarrow> int \<Rightarrow> int" where
  "js_add x y = round_double (x + y)"

text \<open>
  The string of a number, as the template literal of \<^verbatim>\<open>validProof\<close> and
  \<^verbatim>\<open>JSON.stringify\<close> make it.  The digits are those of the decimal with the fewest
  significant digits that still reads back as the same double (the nearest to the
  double's value when several do, the one with an even last digit on a tie): the search
  goes from the coarsest power of ten down and takes the first multiple that rounds to
  the number.  Up to 21 digits are written out; a longer number is written with an
  exponent.  An integer below \<open>2^53\<close> in magnitude comes out as its decimal digits.
\<close>

function dec_digits :: "int \<Rightarrow> string" where
  "dec_digits n = (if n < 10 then [''0123456789'' ! nat n]
                   else dec_digits (n div 10) @ [''0123456789'' ! nat (n mod 10)])"
  by pat_completeness auto
termination
  by (relation "measure nat") auto

fun shortest_from :: "int \<Rightarrow> nat \<Rightarrow> int" where
  "shortest_from a 0 = a"
| "shortest_from a (Suc j) =
     (let scale = 10 ^ Suc j; lo = (a div scale) * scale; hi = lo + scale;
          ok_lo = (round_magnitude lo = a); ok_hi = (round_magnitude hi = a)
      in if ok_lo \<and> ok_hi then
           (if a - lo < hi - a then lo
            else if hi - a < a - lo then hi
            else if even (a div scale) then lo else hi)
         else if ok_lo then lo
         else if ok_hi then hi
         else shortest_from a j)"

definition strip_zeros :: "string \<Rightarrow> string" where
  "strip_zeros s = rev (dropWhile (\<lambda>c. c = CHR ''0'') (rev s))"

definition magnitude_to_string :: "int \<Rightarrow> string" where
  "magnitude_to_string a =
     (let ds = dec_digits (shortest_from a (length (dec_digits a))); n = length ds
      in if n \<le> 21 then ds
         else (let s = strip_zeros ds
               in hd s # (if tl s = [] then [] else CHR ''.'' # tl s)
                  @ ''e+'' @ dec_digits (int n - 1)))"

definition number_to_string :: "int \<Rightarrow> string" where
  "number_to_string x = (if x < 0 then CHR ''-'' # magnitude_to_string (- x)
                         else magnitude_to_string x)"

subsection \<open>JSON text\<close>

text \<open>
  \<^verbatim>\<open>JSON.stringify\<close> on a string: the quotation mark and the backslash are escaped,
  a control character is written with its short escape or as \<^verbatim>\<open>\u00xx\<close>, every other
  character is kept.
\<close>

definition json_char :: "char \<Rightarrow> string" where
  "json_char c = (let n = of_char c :: nat in
     if n = 0x22 then [CHR 0x5C, CHR 0x22]
     else if n = 0x5C then [CHR 0x5C, CHR 0x5C]
     else if n = 8 then [CHR 0x5C, CHR ''b'']
     else if n = 9 then [CHR 0x5C, CHR ''t'']
     else if n = 10 then [CHR 0x5C, CHR ''n'']
     else if n = 12 then [CHR 0x5C, CHR ''f'']
     else if n = 13 then [CHR 0x5C, CHR ''r'']
     else if n < 32 then [CHR 0x5C, CHR ''u'', CHR ''0'', CHR ''0'',
                          hexdigit (int (n div 16)), hexdigit (int (n mod 16))]
     else [c])"

definition json_string :: "string \<Rightarrow> string" where
  "json_string s = CHR 0x22 # concat (map json_char s) @ [CHR 0x22]"

fun join_commas :: "string list \<Rightarrow> string" where
  "join_commas [] = []"
| "join_commas [x] = x"
| "join_commas (x # y # ys) = x @ CHR '','' # join_commas (y # ys)"

section \<open>The ledger data model\<close>

record Transaction =
  sender :: string
  recipient :: string
  amount :: int

record Block =
  index :: int
  timestamp :: int
  transactions :: "Transaction list"
  proof_value :: int
  previousHash :: string

text \<open>
  The field \<^verbatim>\<open>proof\<close> of a block is called \<open>proof_value\<close> here.  A block carries
  its five fields in the order of the interface, which is the order \<^verbatim>\<open>newBlock\<close>
  writes them in and the order \<^verbatim>\<open>JSON.stringify\<close> prints them in.  The set of peers
  is a JavaScript \<^verbatim>\<open>Set\<close>: it holds each address once and is iterated in insertion
  order, hence a list without repetition.
\<close>

record BlockChain =
  chain :: "Block list"
  currentTransactions :: "Transaction list"
  nodes :: "string list"

datatype error = TypeError | SyntaxError

definition json_transaction :: "Transaction \<Rightarrow> string" where
  \<open>json_transaction t =
     ''{"sender":'' @ json_string (sender t) @
     '',"recipient":'' @ json_string (recipient t) @
     '',"amount":'' @ number_to_string (amount t) @ ''}''\<close>

definition JSON_stringify :: "Block \<Rightarrow> string" where
  \<open>JSON_stringify b =
     ''{"index":'' @ number_to_string (index b) @
     '',"timestamp":'' @ number_to_string (timestamp b) @
     '',"transactions":['' @ join_commas (map json_transaction (transactions b)) @
     ''],"proof":'' @ number_to_string (proof_value b) @
     '',"previousHash":'' @ json_string (previousHash b) @ ''}''\<close>

definition hash :: "Block \<Rightarrow> string" where
  "hash block = calculateSHA256Hash (JSON_stringify block)"

section \<open>Proof of work\<close>

definition validProof :: "int \<Rightarrow> int \<Rightarrow> bool" where
  "validProof lastProof prf =
     (let guess = number_to_string lastProof @ number_to_string prf;
          guessHash = calculateSHA256Hash guess
      in take 4 guessHash = ''0000'')"

text \<open>
  The search loop of \<^verbatim>\<open>proofOfWork\<close> has no bound: it is a partial function, and
  \<open>None\<close> is the run that never returns.  The counter is a number: \<^verbatim>\<open>proof += 1\<close> is
  exact up to \<open>2^53\<close> and leaves the counter at \<open>2^53\<close> from there on.
\<close>

partial_function (option) proofOfWork_loop :: "int \<Rightarrow> int \<Rightarrow> int option" where
  "proofOfWork_loop lastProof prf =
     (if \<not> validProof lastProof prf then proofOfWork_loop lastProof (js_add prf 1)
      else Some prf)"

definition proofOfWork :: "int \<Rightarrow> int option" where
  "proofOfWork lastProof = proofOfWork_loop lastProof 0"

section \<open>The chain builder\<close>

text \<open>
  Every method takes the object's state and returns what the call gives the caller
  (\<open>Inl\<close> an exception, \<open>Inr\<close> the returned value) together with the state it leaves.
  \<^verbatim>\<open>Date.now()\<close> is the argument \<open>now\<close>.
\<close>

definition truthy :: "string option \<Rightarrow> bool" where
  "truthy s = (case s of None \<Rightarrow> False | Some v \<Rightarrow> v \<noteq> [])"

text \<open>
  \<^verbatim>\<open>previousHash || BlockChain.hash(this.chain[this.chain.length - 1])\<close>: an omitted
  or empty \<^verbatim>\<open>previousHash\<close> is replaced by the hash of the last block.  On an empty
  chain that block is \<^verbatim>\<open>undefined\<close>, \<^verbatim>\<open>JSON.stringify\<close> gives \<^verbatim>\<open>undefined\<close> and
  \<^verbatim>\<open>hash.update\<close> throws a \<^verbatim>\<open>TypeError\<close>, before anything is assigned.  The index
  of the block is \<^verbatim>\<open>this.chain.length + 1\<close>; the length of an array is below \<open>2^32\<close>,
  where the sum is exact.
\<close>

definition newBlock :: "int \<Rightarrow> string option \<Rightarrow> int \<Rightarrow> BlockChain \<Rightarrow> (error + Block) \<times> BlockChain" where
  "newBlock prf previousHash_arg now st =
     (case (if truthy previousHash_arg then Inr (the previousHash_arg)
            else if chain st = [] then Inl TypeError
            else Inr (hash (last (chain st)))) of
        Inl e \<Rightarrow> (Inl e, st)
      | Inr ph \<Rightarrow>
          (let block = \<lparr>index = int (length (chain st)) + 1,
                        timestamp = now,
                        transactions = currentTransactions st,
                        proof_value = prf,
                        previousHash = ph\<rparr>
           in (Inr block, st\<lparr>currentTransactions := [], chain := chain st @ [block]\<rparr>)))"

text \<open>The constructor: a fresh object whose first block is made by \<^verbatim>\<open>newBlock(100, '1')\<close>.\<close>

definition constructor :: "int \<Rightarrow> BlockChain" where
  "constructor now =
     snd (newBlock 100 (Some ''1'') now \<lparr>chain = [], currentTransactions = [], nodes = []\<rparr>)"

text \<open>
  \<^verbatim>\<open>newTransaction\<close> pushes first and reads \<^verbatim>\<open>this.lastBlock.index\<close> afterwards; on
  an empty chain the read throws, with the transaction already in the pool.  What it
  returns is a sum of numbers, \<^verbatim>\<open>this.lastBlock.index + 1\<close>.
\<close>

definition newTransaction :: "string \<Rightarrow> string \<Rightarrow> int \<Rightarrow> BlockChain \<Rightarrow> (error + int) \<times> BlockChain" where
  "newTransaction sender_arg recipient_arg amount_arg st =
     (let st' = st\<lparr>currentTransactions := currentTransactions st @
                   [\<lparr>sender = sender_arg, recipient = recipient_arg, amount = amount_arg\<rparr>]\<rparr>
      in if chain st' = [] then (Inl TypeError, st')
         else (Inr (js_add (index (last (chain st'))) 1), st'))"

section \<open>Peer registration\<close>

text \<open>
  \<^verbatim>\<open>new URL(address)\<close> is the URL parser of the runtime, a parameter of the model:
  \<open>None\<close> where it throws, otherwise the \<^verbatim>\<open>hostname\<close> and \<^verbatim>\<open>port\<close> it finds.
  \<^verbatim>\<open>registerNode\<close> catches nothing, so the exception reaches its caller.
\<close>

record URL =
  hostname :: string
  port :: string

definition set_add :: "string \<Rightarrow> string list \<Rightarrow> string list" where
  "set_add x xs = (if x \<in> set xs then xs else xs @ [x])"

definition registerNode :: "(string \<Rightarrow> URL option) \<Rightarrow> string \<Rightarrow> BlockChain \<Rightarrow> (error + unit) \<times> BlockChain" where
  "registerNode parse address st =
     (case parse address of
        None \<Rightarrow> (Inl TypeError, st)
      | Some parsedUrl \<Rightarrow>
          (Inr (), st\<lparr>nodes := set_add (hostname parsedUrl @ '':'' @ port parsedUrl) (nodes st)\<rparr>))"

section \<open>The validator\<close>

text \<open>
  The loop of \<^verbatim>\<open>validChain\<close> walks the candidate from index 1, keeping the block
  before in \<^verbatim>\<open>lastBlock\<close>.  On an empty candidate \<^verbatim>\<open>chain[0]\<close> is \<^verbatim>\<open>undefined\<close>;
  the loop does not run and nothing reads it.
\<close>

function validChain_loop :: "Block list \<Rightarrow> Block \<Rightarrow> nat \<Rightarrow> bool" where
  "validChain_loop candidate lastBlock currentIndex =
     (if currentIndex < length candidate then
        (let block = candidate ! currentIndex in
         if previousHash block \<noteq> hash lastBlock then False
         else if \<not> validProof (proof_value lastBlock) (proof_value block) then False
         else validChain_loop candidate block (currentIndex + 1))
      else True)"
  by pat_completeness auto
termination
  by (relation "measure (\<lambda>(candidate, lastBlock, currentIndex). length candidate - currentIndex)")
     auto

definition validChain :: "Block list \<Rightarrow> bool" where
  "validChain candidate =
     (case candidate of [] \<Rightarrow> True | first # rest \<Rightarrow> validChain_loop candidate first 1)"

section \<open>The conflict resolver\<close>

text \<open>
  What \<^verbatim>\<open>fetch\<close> gives for a URL: the promise is rejected (\<open>NetworkError\<close>), or there
  is a response with its \<^verbatim>\<open>ok\<close> flag and a body.  The body either is not JSON
  (\<^verbatim>\<open>response.json()\<close> throws) or carries the two fields read by the resolver,
  \<^verbatim>\<open>length\<close> and \<^verbatim>\<open>chain\<close>, of the types the \<^verbatim>\<open>/chain\<close> route of a peer gives
  them: a number and an array of blocks.  The number need not be the length of the array.
  Neither exception is caught, and both come before the only assignment to
  \<^verbatim>\<open>this.chain\<close>.
\<close>

datatype body = NotJSON | Payload (length_field: int) (chain_field: "Block list")

datatype response = NetworkError | Response (ok: bool) body

definition chain_url :: "string \<Rightarrow> string" where
  "chain_url node = ''http://'' @ node @ ''/chain''"

fun resolve_loop :: "(string \<Rightarrow> response) \<Rightarrow> string list \<Rightarrow> int \<Rightarrow> Block list option
    \<Rightarrow> error + int \<times> Block list option" where
  "resolve_loop fetch [] maxLength newChain = Inr (maxLength, newChain)"
| "resolve_loop fetch (node # rest) maxLength newChain =
     (case fetch (chain_url node) of
        NetworkError \<Rightarrow> Inl TypeError
      | Response is_ok b \<Rightarrow>
          if is_ok then
            (case b of
               NotJSON \<Rightarrow> Inl SyntaxError
             | Payload len c \<Rightarrow>
                 if len > maxLength \<and> validChain c
                 then resolve_loop fetch rest len (Some c)
                 else resolve_loop fetch rest maxLength newChain)
          else resolve_loop fetch rest maxLength newChain)"

text \<open>An array is truthy even when empty: \<^verbatim>\<open>if (newChain)\<close> only asks whether one was kept.\<close>

definition resolveConflicts :: "(string \<Rightarrow> response) \<Rightarrow> BlockChain \<Rightarrow> (error + bool) \<times> BlockChain" where
  "resolveConflicts fetch st =
     (case resolve_loop fetch (nodes st) (int (length (chain st))) None of
        Inl e \<Rightarrow> (Inl e, st)
      | Inr (maxLength, None) \<Rightarrow> (Inr False, st)
      | Inr (maxLength, Some newChain) \<Rightarrow> (Inr True, st\<lparr>chain := newChain\<rparr>))"

section \<open>Properties of the specification, and the data of the examples\<close>

text \<open>
  The validator as the specification words it: every adjacent pair of the candidate has
  the hash link and the proof-of-work link.
\<close>

definition link_ok :: "Block \<Rightarrow> Block \<Rightarrow> bool" where
  "link_ok lastBlock block =
     (previousHash block = hash lastBlock
      \<and> validProof (proof_value lastBlock) (proof_value block))"

definition every_adjacent_pair_ok :: "Block list \<Rightarrow> bool" where
  "every_adjacent_pair_ok c = (\<forall>i \<in> set [0..<length c - 1]. link_ok (c ! i) (c ! (i + 1)))"

text \<open>The invariant of the chain: it is not empty and its first block has index 1.\<close>

definition chain_invariant :: "BlockChain \<Rightarrow> bool" where
  "chain_invariant st = (chain st \<noteq> [] \<and> index (hd (chain st)) = 1)"

text \<open>
  A URL parser for the examples.  It knows the two addresses of the specification's
  example, with the \<^verbatim>\<open>hostname\<close> and \<^verbatim>\<open>port\<close> the runtime's parser gives for them,
  and refuses everything else.
\<close>

definition example_parser :: "string \<Rightarrow> URL option" where
  "example_parser address =
     (if address = ''http://10.0.0.5:5000'' \<or> address = ''http://10.0.0.5:5000/''
      then Some \<lparr>hostname = ''10.0.0.5'', port = ''5000''\<rparr> else None)"

text \<open>A node constructed at time 0 that knows one peer; and the same with one transaction pending.\<close>

definition example_node :: BlockChain where
  "example_node = snd (registerNode example_parser ''http://10.0.0.5:5000'' (constructor 0))"

definition example_pending :: BlockChain where
  "example_pending = snd (newTransaction ''alice'' ''bob'' 5 example_node)"

text \<open>The object before its constructor has made the first block.\<close>

definition empty_object :: BlockChain where
  "empty_object = \<lparr>chain = [], currentTransactions = [], nodes = []\<rparr>"

text \<open>A peer that answers with an empty chain and says its length is 5.\<close>

definition lying_peer :: "string \<Rightarrow> response" where
  "lying_peer url = Response True (Payload 5 [])"

text \<open>
  A peer one block ahead of \<open>example_node\<close>: the same first block, and a second block
  mined on it (35293 is a proof of work after the proof 100).
\<close>

definition peer_genesis :: Block where
  "peer_genesis = \<lparr>index = 1, timestamp = 0, transactions = [], proof_value = 100,
                    previousHash = ''1''\<rparr>"

definition peer_second :: Block where
  "peer_second = \<lparr>index = 2, timestamp = 1,
     transactions = [\<lparr>sender = ''0'', recipient = ''peer'', amount = 1\<rparr>],
     proof_value = 35293,
     previousHash = ''4f730bec89fb5e2092b9400a3bb7591905fa98b0aed2947593fc1dbb7ed23d66''\<rparr>"

definition honest_peer :: "string \<Rightarrow> response" where
  "honest_peer url = Response True (Payload 2 [peer_genesis, peer_second])"

text \<open>
  A peer whose chain is linked as well, of the length it reports, but begins with a
  block of index 7.
\<close>

definition foreign_first :: Block where
  "foreign_first = \<lparr>index = 7, timestamp = 0, transactions = [], proof_value = 100,
                     previousHash = ''1''\<rparr>"

definition foreign_second :: Block where
  "foreign_second = \<lparr>index = 8, timestamp = 0, transactions = [], proof_value = 35293,
     previousHash = ''fe9de35cdaf9a073d78213a34300ca24ce574fea8e2ae2c491ee3d810ad890fa''\<rparr>"

definition foreign_peer :: "string \<Rightarrow> response" where
  "foreign_peer url = Response True (Payload 2 [foreign_first, foreign_second])"

text \<open>
  A peer one block ahead like \<open>honest_peer\<close>, whose second block carries the index
  \<open>2^53\<close>: nothing reads the index of a block that is received.
\<close>

definition far_second :: Block where
  "far_second = \<lparr>index = 9007199254740992, timestamp = 1,
     transactions = [\<lparr>sender = ''0'', recipient = ''peer'', amount = 1\<rparr>],
     proof_value = 35293,
     previousHash = ''4f730bec89fb5e2092b9400a3bb7591905fa98b0aed2947593fc1dbb7ed23d66''\<rparr>"

definition far_peer :: "string \<Rightarrow> response" where
  "far_peer url = Response True (Payload 2 [peer_genesis, far_second])"

section \<open>Facts about numbers\<close>

declare excess_bits.simps [simp del]

declare dec_digits.simps [simp del]

text \<open>Below \<open>2^53\<close> in magnitude every integer is a double, and adding 1 is exact.\<close>

lemma round_magnitude_safe:
  assumes "a < 2 ^ 53"
  shows "round_magnitude a = a"
  using assms by (simp add: round_magnitude_def excess_bits.simps)

lemma round_double_safe:
  assumes "\<bar>x\<bar> < 2 ^ 53"
  shows "round_double x = x"
  using assms by (simp add: round_double_def round_magnitude_safe)

lemma round_double_limit: "round_double 9007199254740992 = 9007199254740992"
  by (simp add: round_double_def round_magnitude_def excess_bits.simps)

lemma js_add_safe:
  assumes "- (2 ^ 53) \<le> x" "x < 2 ^ 53"
  shows "js_add x 1 = x + 1"
proof (cases "x + 1 = 9007199254740992")
  case True
  then show ?thesis by (simp add: js_add_def round_double_limit)
next
  case False
  with assms have "\<bar>x + 1\<bar> < 2 ^ 53" by simp
  then show ?thesis unfolding js_add_def by (rule round_double_safe)
qed

text \<open>At \<open>2^53\<close> the sum \<open>2^53 + 1\<close> is half-way between two doubles and rounds back.\<close>

lemma js_add_at_limit: "js_add 9007199254740992 1 = 9007199254740992"
  by (simp add: js_add_def round_double_def round_magnitude_def excess_bits.simps)

lemma is_double_100: "is_double 100"
  by (simp add: is_double_def round_double_safe)

text \<open>
  The string of an integer below \<open>2^53\<close> in magnitude is its decimal digits, with a
  minus sign when it is negative: a double of \<open>2^53\<close> or more does not round to it, so
  no shorter decimal reads back as it.
\<close>

lemma excess_bits_large:
  "2 ^ 53 \<le> a \<Longrightarrow> 0 < excess_bits a \<and> 2 ^ 52 \<le> a div 2 ^ excess_bits a"
proof (induction a rule: excess_bits.induct)
  case (1 a)
  show ?case
  proof (cases "a div 2 < 2 ^ 53")
    case True
    then have "excess_bits (a div 2) = 0" by (simp add: excess_bits.simps)
    with "1.prems" have "excess_bits a = 1" by (subst excess_bits.simps) simp
    with "1.prems" show ?thesis by simp
  next
    case False
    with "1.prems" "1.IH" have IH: "2 ^ 52 \<le> (a div 2) div 2 ^ excess_bits (a div 2)" by simp
    from "1.prems" have "excess_bits a = Suc (excess_bits (a div 2))"
      by (subst excess_bits.simps) simp
    with IH show ?thesis by (simp add: zdiv_zmult2_eq)
  qed
qed

lemma round_magnitude_large:
  assumes "2 ^ 53 \<le> a"
  shows "2 ^ 53 \<le> round_magnitude a"
proof -
  define e where "e = excess_bits a"
  from excess_bits_large [OF assms] have e: "0 < e" "2 ^ 52 \<le> a div 2 ^ e" by (simp_all add: e_def)
  from e(1) have "(2::int) \<le> 2 ^ e" using self_le_power [of "2::int" e] by simp
  then have "(2::int) ^ 52 * 2 \<le> (a div 2 ^ e) * 2 ^ e" using e(2) by (intro mult_mono) simp_all
  then have low: "2 ^ 53 \<le> (a div 2 ^ e) * 2 ^ e" by simp
  have "(a div 2 ^ e + 1) * 2 ^ e = (a div 2 ^ e) * 2 ^ e + 2 ^ e" by (simp add: algebra_simps)
  moreover have "(0::int) \<le> 2 ^ e" by simp
  ultimately have up: "2 ^ 53 \<le> (a div 2 ^ e + 1) * 2 ^ e" using low by linarith
  from low up show ?thesis by (simp add: round_magnitude_def Let_def e_def [symmetric])
qed

lemma shortest_from_safe:
  assumes "0 \<le> a" "a < 2 ^ 53"
  shows "shortest_from a j = a"
proof (induction j)
  case 0
  show ?case by simp
next
  case (Suc j)
  define g where "g = (10::int) ^ Suc j"
  define lo where "lo = (a div g) * g"
  have pos: "0 < g" by (simp add: g_def)
  have lo_eq: "lo = a - a mod g" by (simp add: lo_def minus_mod_eq_div_mult)
  have lo_le: "lo \<le> a" using pos_mod_sign [OF pos, of a] by (simp add: lo_eq)
  have hi_gt: "a < lo + g" using pos_mod_bound [OF pos, of a] by (simp add: lo_eq)
  from lo_le assms have "round_magnitude lo = lo" by (intro round_magnitude_safe) simp
  moreover have "round_magnitude (lo + g) \<noteq> a"
  proof (cases "lo + g < 2 ^ 53")
    case True
    then have "round_magnitude (lo + g) = lo + g" by (rule round_magnitude_safe)
    with hi_gt show ?thesis by simp
  next
    case False
    then have "2 ^ 53 \<le> round_magnitude (lo + g)" by (intro round_magnitude_large) simp
    with assms show ?thesis by simp
  qed
  ultimately show ?case using Suc.IH
    by (simp add: Let_def g_def [symmetric] lo_def [symmetric] del: power_Suc)
qed

lemma dec_digits_length:
  "0 < k \<Longrightarrow> x < 10 ^ k \<Longrightarrow> length (dec_digits x) \<le> k"
proof (induction k arbitrary: x)
  case 0
  then show ?case by simp
next
  case (Suc k)
  show ?case
  proof (cases "x < 10")
    case True
    then show ?thesis by (subst dec_digits.simps) simp
  next
    case False
    then have k: "0 < k" using Suc.prems(2) by (cases k) simp_all
    from Suc.prems(2) have "x div 10 < 10 ^ k" by simp
    from Suc.IH [OF k this] False show ?thesis by (subst dec_digits.simps) simp
  qed
qed

lemma magnitude_to_string_safe:
  assumes "0 \<le> a" "a < 2 ^ 53"
  shows "magnitude_to_string a = dec_digits a"
proof -
  from assms(2) have "a < 10 ^ 16" by simp
  then have "length (dec_digits a) \<le> 16" by (intro dec_digits_length) simp_all
  then show ?thesis by (simp add: magnitude_to_string_def shortest_from_safe [OF assms])
qed

lemma number_to_string_safe:
  assumes "\<bar>x\<bar> < 2 ^ 53"
  shows "number_to_string x = (if x < 0 then CHR ''-'' # dec_digits (- x) else dec_digits x)"
  using assms by (simp add: number_to_string_def magnitude_to_string_safe)

text \<open>The strings of the numbers in the examples.\<close>

lemma number_strings:
  "number_to_string 0 = ''0''"
  "number_to_string 1 = ''1''"
  "number_to_string 7 = ''7''"
  "number_to_string 100 = ''100''"
  "number_to_string 35293 = ''35293''"
  by (simp_all add: number_to_string_def magnitude_to_string_def Let_def dec_digits.simps
      round_magnitude_safe)

text \<open>
  Two numbers beyond \<open>2^53\<close>: \<open>2^60\<close> is printed with the 16 digits that identify it,
  and \<open>10^21\<close> with an exponent.  \<open>2^53 + 1\<close> is not a double.
\<close>

lemma number_strings_large:
  "number_to_string 1152921504606846976 = ''1152921504606847000''"
  "number_to_string 1000000000000000000000 = ''1e+21''"
  by code_simp+

lemma is_double_examples:
  "is_double 1152921504606846976"
  "is_double 1000000000000000000000"
  "\<not> is_double 9007199254740993"
  by code_simp+

section \<open>Digests of the examples\<close>

text \<open>
  The digests the examples need are computed by rewriting, one compression at a time.
  The first is the digest of \<^verbatim>\<open>"10035293"\<close>, the guess of \<^verbatim>\<open>validProof(100, 35293)\<close>; the
  others are the hashes of the two first blocks above.
\<close>

lemma schedule_numeral:
  "schedule (numeral n) w =
     hd w # schedule (pred_numeral n)
              (tl w @ [(ssig1 (w ! 14) + w ! 9 + ssig0 (w ! 1) + w ! 0) mod 2 ^ 32])"
  by (simp add: numeral_eq_Suc)

lemma chunks_Cons:
  "chunks (numeral n) (x # xs) =
     take (numeral n) (x # xs) # chunks (numeral n) (drop (numeral n) (x # xs))"
  by simp

lemma chunks_Nil: "chunks n [] = []"
  by simp

lemma replicate_numeral: "replicate (numeral n) x = x # replicate (pred_numeral n) x"
  by (simp add: numeral_eq_Suc)

declare chunks.simps [simp del]

declare validChain_loop.simps [simp del]

lemmas blocks_eval = utf8_def pad256_def be64_def be32_def chunks_Cons chunks_Nil
  replicate_numeral upt_rec

lemmas compress_eval = compress_def schedule_numeral K256_def H256_def ssig0_def ssig1_def
  bsig0_def bsig1_def Ch_def Maj_def rotr_def shr_def

lemmas hex_eval = hex32_def hexdigit_def upt_rec

lemma blocks_guess:
  "map (map be32 \<circ> chunks 4) (chunks 64 (pad256 (utf8 ''10035293''))) =
     [[0x31303033, 0x35323933, 0x80000000, 0x00000000,
      0x00000000, 0x00000000, 0x00000000, 0x00000000,
      0x00000000, 0x00000000, 0x00000000, 0x00000000,
      0x00000000, 0x00000000, 0x00000000, 0x00000040]]"
  by (simp add: blocks_eval)

lemma compress_guess:
  "compress H256
     [0x31303033, 0x35323933, 0x80000000, 0x00000000,
      0x00000000, 0x00000000, 0x00000000, 0x00000000,
      0x00000000, 0x00000000, 0x00000000, 0x00000000,
      0x00000000, 0x00000000, 0x00000000, 0x00000040] =
     (0x0000C415, 0xDE5CEEA3, 0x3C02DAA8, 0x5A1C218E,
      0xCCA1B1C9, 0xE9864ED3, 0x4D183597, 0x844DE8E2)"
  by (simp add: compress_eval)

lemma digest_guess:
  "calculateSHA256Hash ''10035293'' =
     ''0000c415de5ceea33c02daa85a1c218ecca1b1c9e9864ed34d183597844de8e2''"
  by (simp add: calculateSHA256Hash_def sha256_def blocks_guess compress_guess hex_eval)

lemma validProof_100_35293: "validProof 100 35293"
  by (simp add: validProof_def number_strings digest_guess)

lemma json_peer_genesis:
  \<open>JSON_stringify peer_genesis =
     ''{"index":1,"timestamp":0,"transactions":[],"proof":100,"previousHash":"1"}''\<close>
  by (simp add: JSON_stringify_def peer_genesis_def number_strings json_string_def json_char_def)

lemma blocks_peer_genesis:
  \<open>map (map be32 \<circ> chunks 4) (chunks 64 (pad256 (utf8
      ''{"index":1,"timestamp":0,"transactions":[],"proof":100,"previousHash":"1"}''))) =
     [[0x7B22696E, 0x64657822, 0x3A312C22, 0x74696D65,
      0x7374616D, 0x70223A30, 0x2C227472, 0x616E7361,
      0x6374696F, 0x6E73223A, 0x5B5D2C22, 0x70726F6F,
      0x66223A31, 0x30302C22, 0x70726576, 0x696F7573],
      [0x48617368, 0x223A2231, 0x227D8000, 0x00000000,
      0x00000000, 0x00000000, 0x00000000, 0x00000000,
      0x00000000, 0x00000000, 0x00000000, 0x00000000,
      0x00000000, 0x00000000, 0x00000000, 0x00000250]]\<close>
  by (simp add: blocks_eval)

lemma compress_peer_genesis_1:
  "compress H256
     [0x7B22696E, 0x64657822, 0x3A312C22, 0x74696D65,
      0x7374616D, 0x70223A30, 0x2C227472, 0x616E7361,
      0x6374696F, 0x6E73223A, 0x5B5D2C22, 0x70726F6F,
      0x66223A31, 0x30302C22, 0x70726576, 0x696F7573] =
     (0xBF5760F5, 0x5C98FDA0, 0xB89CE4DF, 0xB3BAC1C8,
      0xF2CD671D, 0x05B6559F, 0xD20C1A5D, 0x78FB357B)"
  by (simp add: compress_eval)

lemma compress_peer_genesis_2:
  "compress
     (0xBF5760F5, 0x5C98FDA0, 0xB89CE4DF, 0xB3BAC1C8,
      0xF2CD671D, 0x05B6559F, 0xD20C1A5D, 0x78FB357B)
     [0x48617368, 0x223A2231, 0x227D8000, 0x00000000,
      0x00000000, 0x00000000, 0x00000000, 0x00000000,
      0x00000000, 0x00000000, 0x00000000, 0x00000000,
      0x00000000, 0x00000000, 0x00000000, 0x00000250] =
     (0x4F730BEC, 0x89FB5E20, 0x92B9400A, 0x3BB75919,
      0x05FA98B0, 0xAED29475, 0x93FC1DBB, 0x7ED23D66)"
  by (simp add: compress_eval)

lemma hash_peer_genesis:
  "hash peer_genesis = ''4f730bec89fb5e2092b9400a3bb7591905fa98b0aed2947593fc1dbb7ed23d66''"
  by (simp add: hash_def json_peer_genesis calculateSHA256Hash_def sha256_def
      blocks_peer_genesis compress_peer_genesis_1 compress_peer_genesis_2 hex_eval)

lemma json_foreign_first:
  \<open>JSON_stringify foreign_first =
     ''{"index":7,"timestamp":0,"transactions":[],"proof":100,"previousHash":"1"}''\<close>
  by (simp add: JSON_stringify_def foreign_first_def number_strings json_string_def json_char_def)

lemma blocks_foreign_first:
  \<open>map (map be32 \<circ> chunks 4) (chunks 64 (pad256 (utf8
      ''{"index":7,"timestamp":0,"transactions":[],"proof":100,"previousHash":"1"}''))) =
     [[0x7B22696E, 0x64657822, 0x3A372C22, 0x74696D65,
      0x7374616D, 0x70223A30, 0x2C227472, 0x616E7361,
      0x6374696F, 0x6E73223A, 0x5B5D2C22, 0x70726F6F,
      0x66223A31, 0x30302C22, 0x70726576, 0x696F7573],
      [0x48617368, 0x223A2231, 0x227D8000, 0x00000000,
      0x00000000, 0x00000000, 0x00000000, 0x00000000,
      0x00000000, 0x00000000, 0x00000000, 0x00000000,
      0x00000000, 0x00000000, 0x00000000, 0x00000250]]\<close>
  by (simp add: blocks_eval)

lemma compress_foreign_first_1:
  "compress H256
     [0x7B22696E, 0x64657822, 0x3A372C22, 0x74696D65,
      0x7374616D, 0x70223A30, 0x2C227472, 0x616E7361,
      0x6374696F, 0x6E73223A, 0x5B5D2C22, 0x70726F6F,
      0x66223A31, 0x30302C22, 0x70726576, 0x696F7573] =
     (0x37284FBB, 0xCACDAB61, 0x99D2C32B, 0xEF77D1F0,
      0xFD51593D, 0x2A509D48, 0x17E6E220, 0x8B3B18A1)"
  by (simp add: compress_eval)

lemma compress_foreign_first_2:
  "compress
     (0x37284FBB, 0xCACDAB61, 0x99D2C32B, 0xEF77D1F0,
      0xFD51593D, 0x2A509D48, 0x17E6E220, 0x8B3B18A1)
     [0x48617368, 0x223A2231, 0x227D8000, 0x00000000,
      0x00000000, 0x00000000, 0x00000000, 0x00000000,
      0x00000000, 0x00000000, 0x00000000, 0x00000000,
      0x00000000, 0x00000000, 0x00000000, 0x00000250] =
     (0xFE9DE35C, 0xDAF9A073, 0xD78213A3, 0x4300CA24,
      0xCE574FEA, 0x8E2AE2C4, 0x91EE3D81, 0x0AD890FA)"
  by (simp add: compress_eval)

lemma hash_foreign_first:
  "hash foreign_first = ''fe9de35cdaf9a073d78213a34300ca24ce574fea8e2ae2c491ee3d810ad890fa''"
  by (simp add: hash_def json_foreign_first calculateSHA256Hash_def sha256_def
      blocks_foreign_first compress_foreign_first_1 compress_foreign_first_2 hex_eval)

lemma validChain_honest: "validChain [peer_genesis, peer_second]"
  using validProof_100_35293
  by (simp add: validChain_def validChain_loop.simps hash_peer_genesis)
     (simp add: peer_genesis_def peer_second_def)

lemma validChain_foreign: "validChain [foreign_first, foreign_second]"
  using validProof_100_35293
  by (simp add: validChain_def validChain_loop.simps hash_foreign_first)
     (simp add: foreign_first_def foreign_second_def)

lemma validChain_far: "validChain [peer_genesis, far_second]"
  using validProof_100_35293
  by (simp add: validChain_def validChain_loop.simps hash_peer_genesis)
     (simp add: peer_genesis_def far_second_def)

lemma example_node_eq:
  "example_node = \<lparr>chain = [peer_genesis], currentTransactions = [],
                    nodes = [''10.0.0.5:5000'']\<rparr>"
  by (simp add: example_node_def registerNode_def example_parser_def constructor_def
      newBlock_def truthy_def set_add_def Let_def peer_genesis_def)

lemma example_pending_eq:
  "example_pending = \<lparr>chain = [peer_genesis],
     currentTransactions = [\<lparr>sender = ''alice'', recipient = ''bob'', amount = 5\<rparr>],
     nodes = [''10.0.0.5:5000'']\<rparr>"
  by (simp add: example_pending_def example_node_eq newTransaction_def Let_def)

lemma resolveConflicts_far_peer:
  "resolveConflicts far_peer example_node =
     (Inr True, example_node\<lparr>chain := [peer_genesis, far_second]\<rparr>)"
  using validChain_far
  by (simp add: resolveConflicts_def example_node_eq far_peer_def)

section \<open>The chain builder: \<^verbatim>\<open>newTransaction\<close> and \<^verbatim>\<open>newBlock\<close>\<close>

text \<open>
  The pool and the transaction list of a block are arrays, and \<^verbatim>\<open>newBlock\<close> puts the
  pool's own array into the block.  In the same call the pool becomes a fresh array, and
  \<^verbatim>\<open>push\<close> is only ever applied to the pool; so no array that is pushed to belongs to
  a block, and lists by value show what the methods do.
\<close>

text \<open>
  Claim C6, as amended.  In every state with a non-empty chain,
  \<^verbatim>\<open>newTransaction(sender, recipient, amount)\<close> appends exactly the transaction
  \<open>{sender, recipient, amount}\<close> at the end of the pending pool, leaves the chain (and the
  peers) as they are, and returns the sum \<^verbatim>\<open>index + 1\<close> of the last block's index and 1
  as the program's numbers add; whenever that index is at least \<open>-2^53\<close> and below
  \<open>2^53\<close>, what it returns is the index of the last block plus 1.
\<close>

theorem newTransaction_appends:
  assumes "chain st \<noteq> []"
  shows "currentTransactions (snd (newTransaction s r a st)) =
           currentTransactions st @ [\<lparr>sender = s, recipient = r, amount = a\<rparr>]
       \<and> chain (snd (newTransaction s r a st)) = chain st
       \<and> nodes (snd (newTransaction s r a st)) = nodes st
       \<and> fst (newTransaction s r a st) = Inr (js_add (index (last (chain st))) 1)
       \<and> (- (2 ^ 53) \<le> index (last (chain st)) \<and> index (last (chain st)) < 2 ^ 53
            \<longrightarrow> fst (newTransaction s r a st) = Inr (index (last (chain st)) + 1))"
  using assms by (simp add: newTransaction_def Let_def js_add_safe)

text \<open>On the example node, the transaction is announced for block 2.\<close>

theorem newTransaction_appends_witness:
  "chain example_node \<noteq> []
   \<and> - (2 ^ 53) \<le> index (last (chain example_node))
   \<and> index (last (chain example_node)) < 2 ^ 53
   \<and> fst (newTransaction ''alice'' ''bob'' 5 example_node) = Inr 2
   \<and> currentTransactions (snd (newTransaction ''alice'' ''bob'' 5 example_node)) =
        [\<lparr>sender = ''alice'', recipient = ''bob'', amount = 5\<rparr>]
   \<and> chain (snd (newTransaction ''alice'' ''bob'' 5 example_node)) = [peer_genesis]"
  using newTransaction_appends [of example_node "''alice''" "''bob''" 5]
  by (simp add: example_node_eq peer_genesis_def js_add_safe)

text \<open>
  The claim as it was written has the index plus 1 returned in every state.  A block
  that comes from a peer carries the index the peer gave it.  After the node has adopted
  the chain of \<open>far_peer\<close>, whose last block has index \<open>2^53\<close>, the sum
  \<^verbatim>\<open>this.lastBlock.index + 1\<close> is \<open>2^53\<close> again: \<^verbatim>\<open>newTransaction\<close> returns the index of
  the last block itself, not that index plus 1.
\<close>

theorem newTransaction_index_limit:
  "fst (resolveConflicts far_peer example_node) = Inr True
   \<and> chain (snd (resolveConflicts far_peer example_node)) = [peer_genesis, far_second]
   \<and> index (last (chain (snd (resolveConflicts far_peer example_node)))) = 9007199254740992
   \<and> fst (newTransaction ''alice'' ''bob'' 5 (snd (resolveConflicts far_peer example_node))) =
         Inr 9007199254740992
   \<and> fst (newTransaction ''alice'' ''bob'' 5 (snd (resolveConflicts far_peer example_node))) \<noteq>
         Inr (index (last (chain (snd (resolveConflicts far_peer example_node)))) + 1)"
  by (simp add: resolveConflicts_far_peer newTransaction_def Let_def)
     (simp add: far_second_def js_add_at_limit)

text \<open>
  Claim C5, as amended.  In every state in which the chain is not empty or the
  \<^verbatim>\<open>previousHash\<close> argument is a non-empty string, \<^verbatim>\<open>newBlock(proof, previousHash)\<close>
  returns a block and appends exactly that block to the chain; its index is the length
  of the chain before the call plus 1, its transactions are the pending pool as it was
  before the call, and the pool is empty afterwards.
\<close>

theorem newBlock_appends:
  assumes "truthy ph \<or> chain st \<noteq> []"
  shows "\<exists>b. fst (newBlock prf ph now st) = Inr b
           \<and> chain (snd (newBlock prf ph now st)) = chain st @ [b]
           \<and> index b = int (length (chain st)) + 1
           \<and> transactions b = currentTransactions st
           \<and> proof_value b = prf
           \<and> timestamp b = now
           \<and> currentTransactions (snd (newBlock prf ph now st)) = []
           \<and> nodes (snd (newBlock prf ph now st)) = nodes st"
  using assms by (auto simp: newBlock_def Let_def)

text \<open>Mining on the node with one pending transaction gives block 2 with that transaction.\<close>

theorem newBlock_appends_witness:
  "chain example_pending \<noteq> []
   \<and> (\<exists>b. fst (newBlock 35293 None 1 example_pending) = Inr b
          \<and> chain (snd (newBlock 35293 None 1 example_pending)) = [peer_genesis, b]
          \<and> index b = 2
          \<and> transactions b = [\<lparr>sender = ''alice'', recipient = ''bob'', amount = 5\<rparr>]
          \<and> currentTransactions (snd (newBlock 35293 None 1 example_pending)) = [])"
  using newBlock_appends [of None example_pending 35293 1]
  by (auto simp: example_pending_eq)

text \<open>
  The claim as it was written speaks of every state.  On an empty chain, a call that
  leaves \<^verbatim>\<open>previousHash\<close> out throws and appends nothing.
\<close>

theorem newBlock_empty_chain_throws:
  "fst (newBlock 5 None 0 empty_object) = Inl TypeError
   \<and> chain (snd (newBlock 5 None 0 empty_object)) = []"
  by (simp add: newBlock_def empty_object_def truthy_def)

text \<open>
  Claim C10, as amended.  The default of \<^verbatim>\<open>previousHash\<close> applies to every falsy
  argument: in every state with a non-empty chain, \<^verbatim>\<open>newBlock(proof, "")\<close> and
  \<^verbatim>\<open>newBlock(proof)\<close> both give a block whose \<^verbatim>\<open>previousHash\<close> is the hash of the
  last block; and in every state a non-empty \<^verbatim>\<open>previousHash\<close> is stored as it is.
\<close>

theorem newBlock_previousHash_default:
  "(chain st \<noteq> [] \<longrightarrow>
      (\<exists>b. fst (newBlock prf (Some '''') now st) = Inr b
           \<and> previousHash b = hash (last (chain st)))
    \<and> (\<exists>b. fst (newBlock prf None now st) = Inr b
           \<and> previousHash b = hash (last (chain st))))
   \<and> (ph \<noteq> '''' \<longrightarrow>
      (\<exists>b. fst (newBlock prf (Some ph) now st) = Inr b \<and> previousHash b = ph))"
  by (simp add: newBlock_def Let_def truthy_def)

text \<open>On the example node the empty string gives the hash of the first block.\<close>

theorem newBlock_previousHash_default_witness:
  "chain example_node \<noteq> []
   \<and> (\<exists>b. fst (newBlock 35293 (Some '''') 1 example_node) = Inr b
          \<and> previousHash b =
              ''4f730bec89fb5e2092b9400a3bb7591905fa98b0aed2947593fc1dbb7ed23d66'')
   \<and> (\<exists>b. fst (newBlock 35293 (Some ''abc'') 1 example_node) = Inr b
          \<and> previousHash b = ''abc'')"
  using newBlock_previousHash_default [of example_node 35293 1 "''abc''"]
  by (simp add: example_node_eq hash_peer_genesis)

text \<open>On an empty chain there is no last block to hash, and the empty string makes the call throw.\<close>

theorem newBlock_empty_string_empty_chain:
  "fst (newBlock 7 (Some '''') 0 empty_object) = Inl TypeError"
  by (simp add: newBlock_def empty_object_def truthy_def)

section \<open>Peer registration\<close>

text \<open>
  Claim C7.  For every address, \<^verbatim>\<open>registerNode(address)\<close> ends in an exception that
  reaches the caller exactly when the address cannot be parsed as a URL, and then the
  set of peers is unchanged; when the address is parsed, the call returns and the set
  of peers gains the string \<open>hostname:port\<close> (nothing else changes).
\<close>

theorem registerNode_error_surfaced:
  "((\<exists>e. fst (registerNode parse address st) = Inl e) \<longleftrightarrow> parse address = None)
   \<and> (parse address = None \<longrightarrow> snd (registerNode parse address st) = st)
   \<and> (\<forall>u. parse address = Some u \<longrightarrow>
         fst (registerNode parse address st) = Inr ()
       \<and> set (nodes (snd (registerNode parse address st))) =
           insert (hostname u @ '':'' @ port u) (set (nodes st))
       \<and> chain (snd (registerNode parse address st)) = chain st
       \<and> currentTransactions (snd (registerNode parse address st)) = currentTransactions st)"
  by (auto simp: registerNode_def set_add_def split: option.splits)

text \<open>An address without a scheme is refused; the address of the example is accepted.\<close>

theorem registerNode_error_surfaced_witness:
  "example_parser ''10.0.0.5'' = None
   \<and> fst (registerNode example_parser ''10.0.0.5'' example_node) = Inl TypeError
   \<and> snd (registerNode example_parser ''10.0.0.5'' example_node) = example_node
   \<and> example_parser ''http://10.0.0.5:5000/'' = Some \<lparr>hostname = ''10.0.0.5'', port = ''5000''\<rparr>
   \<and> fst (registerNode example_parser ''http://10.0.0.5:5000/'' empty_object) = Inr ()
   \<and> set (nodes (snd (registerNode example_parser ''http://10.0.0.5:5000/'' empty_object))) =
        {''10.0.0.5:5000''}"
proof -
  have none: "example_parser ''10.0.0.5'' = None"
    by (simp add: example_parser_def)
  have some: "example_parser ''http://10.0.0.5:5000/'' =
      Some \<lparr>hostname = ''10.0.0.5'', port = ''5000''\<rparr>"
    by (simp add: example_parser_def)
  from registerNode_error_surfaced [of example_parser "''10.0.0.5''" example_node] none
  have "\<exists>e. fst (registerNode example_parser ''10.0.0.5'' example_node) = Inl e"
    and unchanged: "snd (registerNode example_parser ''10.0.0.5'' example_node) = example_node"
    by simp_all
  then have thrown: "fst (registerNode example_parser ''10.0.0.5'' example_node) = Inl TypeError"
    by (simp add: registerNode_def none)
  from registerNode_error_surfaced [of example_parser "''http://10.0.0.5:5000/''" empty_object]
    some
  have "fst (registerNode example_parser ''http://10.0.0.5:5000/'' empty_object) = Inr ()"
    and "set (nodes (snd (registerNode example_parser ''http://10.0.0.5:5000/'' empty_object))) =
        {''10.0.0.5:5000''}"
    by (simp_all add: empty_object_def)
  with thrown unchanged none some show ?thesis by simp
qed

text \<open>
  Claim C8.  Starting from an empty set of peers, registering
  \<^verbatim>\<open>"http://10.0.0.5:5000"\<close> and \<^verbatim>\<open>"http://10.0.0.5:5000/"\<close>, in either order, leaves a
  set of one peer, \<^verbatim>\<open>10.0.0.5:5000\<close>.  The runtime's URL parser gives both addresses the
  hostname \<^verbatim>\<open>10.0.0.5\<close> and the port \<^verbatim>\<open>5000\<close>; this is what is assumed of \<open>parse\<close>.
\<close>

theorem register_equivalent_addresses:
  assumes "parse ''http://10.0.0.5:5000'' = Some \<lparr>hostname = ''10.0.0.5'', port = ''5000''\<rparr>"
    and "parse ''http://10.0.0.5:5000/'' = Some \<lparr>hostname = ''10.0.0.5'', port = ''5000''\<rparr>"
    and "nodes st = []"
  shows "nodes (snd (registerNode parse ''http://10.0.0.5:5000/''
                  (snd (registerNode parse ''http://10.0.0.5:5000'' st)))) = [''10.0.0.5:5000'']
       \<and> nodes (snd (registerNode parse ''http://10.0.0.5:5000''
                  (snd (registerNode parse ''http://10.0.0.5:5000/'' st)))) = [''10.0.0.5:5000'']"
  using assms by (simp add: registerNode_def set_add_def)

text \<open>The same on a freshly constructed node, with the parser of the examples.\<close>

theorem register_equivalent_addresses_witness:
  "nodes (constructor 0) = []
   \<and> nodes (snd (registerNode example_parser ''http://10.0.0.5:5000/''
                  (snd (registerNode example_parser ''http://10.0.0.5:5000'' (constructor 0)))))
       = [''10.0.0.5:5000'']
   \<and> nodes (snd (registerNode example_parser ''http://10.0.0.5:5000''
                  (snd (registerNode example_parser ''http://10.0.0.5:5000/'' (constructor 0)))))
       = [''10.0.0.5:5000'']"
proof -
  have a: "example_parser ''http://10.0.0.5:5000'' =
      Some \<lparr>hostname = ''10.0.0.5'', port = ''5000''\<rparr>"
    and b: "example_parser ''http://10.0.0.5:5000/'' =
      Some \<lparr>hostname = ''10.0.0.5'', port = ''5000''\<rparr>"
    by (simp_all add: example_parser_def)
  have c: "nodes (constructor 0) = []"
    by (simp add: constructor_def newBlock_def truthy_def Let_def)
  from register_equivalent_addresses [OF a b c] c show ?thesis by simp
qed

section \<open>The validator\<close>

lemma validChain_loop_step:
  assumes "i < length c"
  shows "validChain_loop c lb i \<longleftrightarrow> link_ok lb (c ! i) \<and> validChain_loop c (c ! i) (i + 1)"
  using assms by (subst validChain_loop.simps) (simp add: link_ok_def Let_def)

lemma validChain_loop_end:
  assumes "\<not> i < length c"
  shows "validChain_loop c lb i"
  using assms by (subst validChain_loop.simps) simp

lemma pairs_from:
  assumes "i < length c"
  shows "(\<forall>j. i \<le> j \<and> j < length c \<longrightarrow> P j)
      \<longleftrightarrow> P i \<and> (\<forall>j. i + 1 \<le> j \<and> j < length c \<longrightarrow> P j)"
proof
  assume all: "\<forall>j. i \<le> j \<and> j < length c \<longrightarrow> P j"
  with assms have "P i" by simp
  moreover from all have "\<forall>j. i + 1 \<le> j \<and> j < length c \<longrightarrow> P j" by simp
  ultimately show "P i \<and> (\<forall>j. i + 1 \<le> j \<and> j < length c \<longrightarrow> P j)" ..
next
  assume r: "P i \<and> (\<forall>j. i + 1 \<le> j \<and> j < length c \<longrightarrow> P j)"
  show "\<forall>j. i \<le> j \<and> j < length c \<longrightarrow> P j"
  proof (intro allI impI)
    fix j assume j: "i \<le> j \<and> j < length c"
    show "P j"
    proof (cases "j = i")
      case True
      with r show ?thesis by simp
    next
      case False
      with j have "i + 1 \<le> j \<and> j < length c" by simp
      with r show ?thesis by blast
    qed
  qed
qed


lemma validChain_loop_iff:
  assumes "0 < i" and "i \<le> length c" and "lb = c ! (i - 1)"
  shows "validChain_loop c lb i \<longleftrightarrow>
           (\<forall>j. i \<le> j \<and> j < length c \<longrightarrow> link_ok (c ! (j - 1)) (c ! j))"
  using assms
proof (induction "length c - i" arbitrary: i lb)
  case 0
  then have stop: "\<not> i < length c" by simp
  then have "\<forall>j. i \<le> j \<and> j < length c \<longrightarrow> link_ok (c ! (j - 1)) (c ! j)"
    by (meson le_less_trans)
  with validChain_loop_end [OF stop] show ?case by blast
next
  case (Suc n)
  then have less: "i < length c" by simp
  have rest: "validChain_loop c (c ! i) (i + 1) \<longleftrightarrow>
      (\<forall>j. i + 1 \<le> j \<and> j < length c \<longrightarrow> link_ok (c ! (j - 1)) (c ! j))"
  proof (rule Suc.hyps(1))
    show "n = length c - (i + 1)" using Suc.hyps(2) by simp
    show "0 < i + 1" by simp
    show "i + 1 \<le> length c" using less by simp
    show "c ! i = c ! (i + 1 - 1)" by simp
  qed
  have "(\<forall>j. i \<le> j \<and> j < length c \<longrightarrow> link_ok (c ! (j - 1)) (c ! j))
      \<longleftrightarrow> link_ok (c ! (i - 1)) (c ! i)
          \<and> (\<forall>j. i + 1 \<le> j \<and> j < length c \<longrightarrow> link_ok (c ! (j - 1)) (c ! j))"
    using less by (rule pairs_from)
  with rest Suc.prems(3) show ?case
    by (simp only: validChain_loop_step [OF less])
qed

lemma validChain_pairs: "validChain c = every_adjacent_pair_ok c"
proof (cases c)
  case Nil
  then show ?thesis by (simp add: validChain_def every_adjacent_pair_ok_def)
next
  case (Cons b bs)
  then have start: "validChain c = validChain_loop c b 1"
    and "0 < (1::nat)" and "1 \<le> length c" and "b = c ! (1 - 1)"
    by (simp_all add: validChain_def)
  then have "validChain c \<longleftrightarrow>
      (\<forall>j. 1 \<le> j \<and> j < length c \<longrightarrow> link_ok (c ! (j - 1)) (c ! j))"
    by (simp only: validChain_loop_iff)
  also have "\<dots> \<longleftrightarrow> (\<forall>i. i < length c - 1 \<longrightarrow> link_ok (c ! i) (c ! (i + 1)))"
  proof (intro iffI allI impI)
    fix i assume all: "\<forall>j. 1 \<le> j \<and> j < length c \<longrightarrow> link_ok (c ! (j - 1)) (c ! j)"
      and "i < length c - 1"
    then have "1 \<le> i + 1 \<and> i + 1 < length c" by simp
    with all have "link_ok (c ! (i + 1 - 1)) (c ! (i + 1))" by blast
    then show "link_ok (c ! i) (c ! (i + 1))" by simp
  next
    fix j assume all: "\<forall>i. i < length c - 1 \<longrightarrow> link_ok (c ! i) (c ! (i + 1))"
      and j: "1 \<le> j \<and> j < length c"
    then have "j - 1 < length c - 1" by linarith
    with all have "link_ok (c ! (j - 1)) (c ! (j - 1 + 1))" by blast
    with j show "link_ok (c ! (j - 1)) (c ! j)" by simp
  qed
  finally show ?thesis by (auto simp: every_adjacent_pair_ok_def)
qed

lemma validChain_failing_pair:
  assumes "\<not> link_ok p q"
  shows "\<not> validChain (pre @ p # q # rest)"
proof -
  let ?c = "pre @ p # q # rest"
  have len: "length pre < length ?c - 1" by simp
  have "?c ! length pre = p" "?c ! (length pre + 1) = q"
    by (simp_all add: nth_append)
  with assms len have "\<not> every_adjacent_pair_ok ?c"
    unfolding every_adjacent_pair_ok_def
    by (metis atLeastLessThan_iff set_upt zero_le)
  then show ?thesis by (simp add: validChain_pairs)
qed

text \<open>
  Claim C4.  For every candidate chain, \<^verbatim>\<open>validChain\<close> returns true if and only if
  every adjacent pair \<open>(lastBlock, block)\<close> of the candidate has
  \<open>block.previousHash = hash(lastBlock)\<close> and \<open>validProof(lastBlock.proof, block.proof)\<close>.
  In particular it returns true on an empty candidate and on a candidate of one block,
  and a failing pair makes it return false whatever comes before and after the pair.
\<close>

theorem validChain_iff_adjacent_pairs:
  "validChain c = every_adjacent_pair_ok c
   \<and> validChain [] \<and> validChain [b]
   \<and> (\<not> link_ok p q \<longrightarrow> \<not> validChain (pre @ p # q # rest))"
proof -
  have "validChain []"
    by (simp add: validChain_def)
  moreover have "validChain [b]"
    by (simp add: validChain_def validChain_loop.simps)
  ultimately show ?thesis
    using validChain_pairs [of c] validChain_failing_pair [of p q pre rest] by blast
qed

text \<open>
  The chain of the honest peer passes, pair by pair; the same chain with its first block
  repeated fails at the repeated block, whose \<^verbatim>\<open>previousHash\<close> is \<^verbatim>\<open>"1"\<close>.
\<close>

theorem validChain_iff_adjacent_pairs_witness:
  "validChain [peer_genesis, peer_second]
   \<and> every_adjacent_pair_ok [peer_genesis, peer_second]
   \<and> link_ok peer_genesis peer_second
   \<and> validChain [] \<and> validChain [peer_genesis]
   \<and> \<not> link_ok peer_genesis peer_genesis
   \<and> \<not> validChain ([] @ peer_genesis # peer_genesis # [peer_second])"
proof -
  have bad: "\<not> link_ok peer_genesis peer_genesis"
    by (simp add: link_ok_def hash_peer_genesis) (simp add: peer_genesis_def)
  have good: "link_ok peer_genesis peer_second"
    using validProof_100_35293
    by (simp add: link_ok_def hash_peer_genesis) (simp add: peer_genesis_def peer_second_def)
  from validChain_iff_adjacent_pairs
         [of "[peer_genesis, peer_second]" peer_genesis peer_genesis peer_genesis
             "[]" "[peer_second]"]
  have "validChain [peer_genesis, peer_second] = every_adjacent_pair_ok [peer_genesis, peer_second]"
    and "validChain []" and "validChain [peer_genesis]"
    and "\<not> link_ok peer_genesis peer_genesis \<longrightarrow>
         \<not> validChain ([] @ peer_genesis # peer_genesis # [peer_second])"
    by blast+
  with bad good validChain_honest show ?thesis by blast
qed

section \<open>Proof of work\<close>

text \<open>
  The counter of the search starts at 0 and is a number: up to \<open>2^53\<close> the step
  \<^verbatim>\<open>proof += 1\<close> adds 1, and at \<open>2^53\<close> it leaves the counter where it is.
\<close>

lemma js_add_counter:
  assumes "0 \<le> k" "k \<le> 2 ^ 53"
  shows "k \<le> js_add k 1 \<and> 0 \<le> js_add k 1 \<and> js_add k 1 \<le> 2 ^ 53"
proof (cases "k = 9007199254740992")
  case True
  then show ?thesis by (simp add: js_add_at_limit)
next
  case False
  with assms have "js_add k 1 = k + 1" by (intro js_add_safe) simp_all
  with assms False show ?thesis by simp
qed

lemma proofOfWork_loop_reaches:
  assumes "validProof lastProof p" and "0 \<le> k" and "k \<le> p" and "p \<le> 2 ^ 53"
    and "\<forall>q. k \<le> q \<and> q < p \<longrightarrow> \<not> validProof lastProof q"
  shows "proofOfWork_loop lastProof k = Some p"
  using assms
proof (induction "nat (p - k)" arbitrary: k)
  case 0
  then have "k = p" by simp
  with "0.prems" show ?case by (simp add: proofOfWork_loop.simps)
next
  case (Suc n)
  then have "k < p" by simp
  with Suc.prems have not_yet: "\<not> validProof lastProof k" by simp
  have step: "js_add k 1 = k + 1"
    using \<open>k < p\<close> Suc.prems(2,4) by (intro js_add_safe) simp_all
  have "proofOfWork_loop lastProof (k + 1) = Some p"
  proof (rule Suc.hyps(1))
    show "n = nat (p - (k + 1))" using Suc.hyps(2) by simp
    show "validProof lastProof p" by fact
    show "0 \<le> k + 1" using Suc.prems(2) by simp
    show "k + 1 \<le> p" using \<open>k < p\<close> by simp
    show "p \<le> 2 ^ 53" by fact
    show "\<forall>q. k + 1 \<le> q \<and> q < p \<longrightarrow> \<not> validProof lastProof q"
      using Suc.prems(5) by simp
  qed
  with not_yet step show ?case by (subst proofOfWork_loop.simps) simp
qed

lemma least_solution:
  assumes "0 \<le> p" "validProof lastProof p"
  shows "\<exists>m. 0 \<le> m \<and> m \<le> p \<and> validProof lastProof m
             \<and> (\<forall>q. 0 \<le> q \<and> q < m \<longrightarrow> \<not> validProof lastProof q)"
proof -
  define P where "P n = validProof lastProof (int n)" for n
  have "P (nat p)" using assms by (simp add: P_def)
  then have L: "P (LEAST n. P n)" by (rule LeastI)
  have M: "\<not> P n" if "n < (LEAST n. P n)" for n
    using that by (rule not_less_Least)
  have le: "(LEAST n. P n) \<le> nat p" using \<open>P (nat p)\<close> by (rule Least_le)
  let ?m = "int (LEAST n. P n)"
  have "\<forall>q. 0 \<le> q \<and> q < ?m \<longrightarrow> \<not> validProof lastProof q"
  proof (intro allI impI)
    fix q assume "0 \<le> q \<and> q < ?m"
    then have "nat q < (LEAST n. P n)" "int (nat q) = q" by linarith+
    with M [of "nat q"] show "\<not> validProof lastProof q" by (simp add: P_def)
  qed
  moreover have "validProof lastProof ?m" using L by (simp add: P_def)
  moreover have "?m \<le> p" using le assms(1) by simp
  ultimately show ?thesis by (intro exI [of _ ?m]) simp
qed

text \<open>
  Claim C3.  Let \<open>lastProof\<close> be a number of the program (an integer that is a double).
  Whenever some integer from 0 to \<open>2^53\<close>, the range of the search's counter, is a valid
  proof after \<open>lastProof\<close>, \<^verbatim>\<open>proofOfWork(lastProof)\<close> returns, and what it returns is the
  smallest non-negative integer \<open>p\<close> for which the SHA-256 hex digest of the string of
  \<open>lastProof\<close> followed by the string of \<open>p\<close> begins with \<^verbatim>\<open>0000\<close>; in particular
  \<^verbatim>\<open>validProof(lastProof, proofOfWork(lastProof))\<close> is true.  (The statement holds for
  the negative numbers as well as for the non-negative ones of the claim.)
\<close>

theorem proofOfWork_smallest:
  assumes "is_double lastProof"
    and "\<exists>p. 0 \<le> p \<and> p \<le> 2 ^ 53 \<and> validProof lastProof p"
  shows "\<exists>p. proofOfWork lastProof = Some p \<and> 0 \<le> p
           \<and> take 4 (calculateSHA256Hash (number_to_string lastProof @ number_to_string p)) =
               ''0000''
           \<and> (\<forall>q. 0 \<le> q \<and> q < p \<longrightarrow>
                 take 4 (calculateSHA256Hash (number_to_string lastProof @ number_to_string q))
                   \<noteq> ''0000'')
           \<and> validProof lastProof p"
proof -
  from assms(2) obtain p0 where
    p0: "0 \<le> p0" "p0 \<le> 2 ^ 53" "validProof lastProof p0" by blast
  from least_solution [OF p0(1) p0(3)] obtain m where
    m: "0 \<le> m" "m \<le> p0" "validProof lastProof m"
       "\<forall>q. 0 \<le> q \<and> q < m \<longrightarrow> \<not> validProof lastProof q"
    by blast
  from m p0(2) have "proofOfWork lastProof = Some m"
    unfolding proofOfWork_def by (intro proofOfWork_loop_reaches) auto
  with m show ?thesis by (auto simp: validProof_def)
qed

text \<open>
  After the proof 100 of the first block a solution exists, 35293; so the search
  returns, with a valid proof that is at most 35293.
\<close>

theorem proofOfWork_smallest_witness:
  "is_double 100
   \<and> (\<exists>p. 0 \<le> p \<and> p \<le> 2 ^ 53 \<and> validProof 100 p)
   \<and> (\<exists>p. proofOfWork 100 = Some p \<and> 0 \<le> p \<and> p \<le> 35293 \<and> validProof 100 p)"
proof -
  have ex: "\<exists>p. 0 \<le> p \<and> p \<le> 2 ^ 53 \<and> validProof 100 p"
    using validProof_100_35293 by (intro exI [of _ 35293]) simp
  from proofOfWork_smallest [OF is_double_100 ex] obtain p where
    p: "proofOfWork 100 = Some p" "0 \<le> p" "validProof 100 p"
       "\<forall>q. 0 \<le> q \<and> q < p \<longrightarrow>
          take 4 (calculateSHA256Hash (number_to_string 100 @ number_to_string q)) \<noteq> ''0000''"
    by blast
  have "p \<le> 35293"
  proof (rule ccontr)
    assume "\<not> p \<le> 35293"
    with p(4) have
      "take 4 (calculateSHA256Hash (number_to_string 100 @ number_to_string 35293)) \<noteq> ''0000''"
      by simp
    with validProof_100_35293 show False by (simp add: validProof_def)
  qed
  with ex p is_double_100 show ?thesis by blast
qed

text \<open>
  The search returns only valid proofs from the range of its counter, and it never
  returns when there is none there: whether \<^verbatim>\<open>proofOfWork\<close> terminates on a given
  \<open>lastProof\<close> is the question whether SHA-256 has a digest with the prefix among the
  guesses with a proof from 0 to \<open>2^53\<close>.
\<close>

lemma proofOfWork_loop_Some:
  assumes "proofOfWork_loop lastProof k = Some p"
  shows "0 \<le> k \<and> k \<le> 2 ^ 53 \<longrightarrow> k \<le> p \<and> p \<le> 2 ^ 53 \<and> validProof lastProof p"
proof (rule proofOfWork_loop.raw_induct
         [where P = "\<lambda>lp k p. 0 \<le> k \<and> k \<le> 2 ^ 53
                                \<longrightarrow> k \<le> p \<and> p \<le> 2 ^ 53 \<and> validProof lp p",
          OF _ assms])
  fix loop :: "int \<Rightarrow> int \<Rightarrow> int option" and lp k p
  assume IH: "\<And>a b y. loop a b = Some y \<Longrightarrow>
                 0 \<le> b \<and> b \<le> 2 ^ 53 \<longrightarrow> b \<le> y \<and> y \<le> 2 ^ 53 \<and> validProof a y"
    and step: "(if \<not> validProof lp k then loop lp (js_add k 1) else Some k) = Some p"
  show "0 \<le> k \<and> k \<le> 2 ^ 53 \<longrightarrow> k \<le> p \<and> p \<le> 2 ^ 53 \<and> validProof lp p"
  proof
    assume range: "0 \<le> k \<and> k \<le> 2 ^ 53"
    show "k \<le> p \<and> p \<le> 2 ^ 53 \<and> validProof lp p"
    proof (cases "validProof lp k")
      case True
      with step range show ?thesis by simp
    next
      case False
      with step have "loop lp (js_add k 1) = Some p" by simp
      from IH [OF this] js_add_counter [of k] range show ?thesis by simp
    qed
  qed
qed

lemma proofOfWork_returns_iff:
  "(\<exists>p. proofOfWork lastProof = Some p)
     \<longleftrightarrow> (\<exists>p. 0 \<le> p \<and> p \<le> 2 ^ 53 \<and> validProof lastProof p)"
proof
  assume "\<exists>p. proofOfWork lastProof = Some p"
  then obtain p where "proofOfWork_loop lastProof 0 = Some p"
    by (auto simp: proofOfWork_def)
  from proofOfWork_loop_Some [OF this]
  show "\<exists>p. 0 \<le> p \<and> p \<le> 2 ^ 53 \<and> validProof lastProof p" by auto
next
  assume "\<exists>p. 0 \<le> p \<and> p \<le> 2 ^ 53 \<and> validProof lastProof p"
  then obtain p0 where p0: "0 \<le> p0" "p0 \<le> 2 ^ 53" "validProof lastProof p0" by blast
  from least_solution [OF p0(1) p0(3)] obtain m where
    m: "0 \<le> m" "m \<le> p0" "validProof lastProof m"
       "\<forall>q. 0 \<le> q \<and> q < m \<longrightarrow> \<not> validProof lastProof q"
    by blast
  from m p0(2) have "proofOfWork lastProof = Some m"
    unfolding proofOfWork_def by (intro proofOfWork_loop_reaches) auto
  then show "\<exists>p. proofOfWork lastProof = Some p" by blast
qed

section \<open>The conflict resolver\<close>

text \<open>
  What the loop over the peers leaves: either nothing was kept since it started, or a
  chain is kept that some peer sent in an \<^verbatim>\<open>ok\<close> response, that passed \<^verbatim>\<open>validChain\<close>,
  and whose reported length, now \<^verbatim>\<open>maxLength\<close>, is above the starting \<^verbatim>\<open>maxLength\<close>.
\<close>

lemma resolve_loop_result:
  assumes "resolve_loop fetch ns m nc = Inr (m', nc')"
  shows "(m' = m \<and> nc' = nc)
       \<or> (\<exists>node \<in> set ns. \<exists>c. nc' = Some c
             \<and> fetch (chain_url node) = Response True (Payload m' c)
             \<and> validChain c \<and> m < m')"
  using assms
proof (induction ns arbitrary: m nc)
  case Nil
  then show ?case by simp
next
  case (Cons node rest)
  show ?case
  proof (cases "fetch (chain_url node)")
    case NetworkError
    with Cons.prems show ?thesis by simp
  next
    case (Response is_ok b)
    show ?thesis
    proof (cases "is_ok \<and> (\<exists>len c. b = Payload len c \<and> m < len \<and> validChain c)")
      case True
      then obtain len c where b: "is_ok" "b = Payload len c" "m < len" "validChain c"
        by blast
      with Cons.prems Response have "resolve_loop fetch rest len (Some c) = Inr (m', nc')"
        by simp
      from Cons.IH [OF this] show ?thesis
      proof
        assume "m' = len \<and> nc' = Some c"
        with b Response show ?thesis by auto
      next
        assume "\<exists>node\<in>set rest. \<exists>c. nc' = Some c \<and>
            fetch (chain_url node) = Response True (Payload m' c) \<and> validChain c \<and> len < m'"
        with b show ?thesis by fastforce
      qed
    next
      case False
      with Cons.prems Response have "resolve_loop fetch rest m nc = Inr (m', nc')"
        by (auto split: body.splits if_splits)
      from Cons.IH [OF this] show ?thesis by auto
    qed
  qed
qed

lemma resolveConflicts_result:
  "snd (resolveConflicts fetch st) = st
   \<or> (\<exists>node \<in> set (nodes st). \<exists>len c.
         fetch (chain_url node) = Response True (Payload len c) \<and> validChain c
       \<and> int (length (chain st)) < len
       \<and> fst (resolveConflicts fetch st) = Inr True
       \<and> snd (resolveConflicts fetch st) = st\<lparr>chain := c\<rparr>)"
proof (cases "resolve_loop fetch (nodes st) (int (length (chain st))) None")
  case (Inl e)
  then show ?thesis by (simp add: resolveConflicts_def)
next
  case (Inr r)
  obtain m' nc' where r: "r = (m', nc')" by (cases r)
  show ?thesis
  proof (cases nc')
    case None
    with Inr r show ?thesis by (simp add: resolveConflicts_def)
  next
    case (Some c)
    from resolve_loop_result [OF Inr [unfolded r]] Some
    obtain node where "node \<in> set (nodes st)"
      "fetch (chain_url node) = Response True (Payload m' c)" "validChain c"
      "int (length (chain st)) < m'" by auto
    moreover have "resolveConflicts fetch st = (Inr True, st\<lparr>chain := c\<rparr>)"
      using Inr r Some by (simp add: resolveConflicts_def)
    ultimately show ?thesis by auto
  qed
qed

text \<open>
  When every peer reports the length its chain has, as the \<^verbatim>\<open>/chain\<close> route of this
  program does, conflict resolution never shortens the chain.
\<close>

lemma resolveConflicts_honest_lengths:
  assumes "\<forall>node \<in> set (nodes st). \<forall>len c.
     fetch (chain_url node) = Response True (Payload len c) \<longrightarrow> len = int (length c)"
  shows "length (chain st) \<le> length (chain (snd (resolveConflicts fetch st)))"
  using resolveConflicts_result [of fetch st] assms by fastforce

lemma resolveConflicts_honest_peer:
  "resolveConflicts honest_peer example_node =
     (Inr True, example_node\<lparr>chain := [peer_genesis, peer_second]\<rparr>)"
  using validChain_honest
  by (simp add: resolveConflicts_def example_node_eq honest_peer_def)

lemma resolveConflicts_foreign_peer:
  "resolveConflicts foreign_peer example_node =
     (Inr True, example_node\<lparr>chain := [foreign_first, foreign_second]\<rparr>)"
  using validChain_foreign
  by (simp add: resolveConflicts_def example_node_eq foreign_peer_def)

text \<open>
  Claim C1.  It says that after \<^verbatim>\<open>resolveConflicts()\<close> the chain is at least as long as
  before, also when a peer reports a length that is not the length of the chain it
  sends.  The comment in the code says the same of the chain it adopts (a chain longer
  than the node's own), but the comparison reads the reported \<^verbatim>\<open>length\<close>: when a peer
  answers with an empty chain and the length 5, the node, whose chain had one block,
  adopts the empty chain.
\<close>

theorem resolveConflicts_shortens_chain:
  "length (chain example_node) = 1
   \<and> fst (resolveConflicts lying_peer example_node) = Inr True
   \<and> chain (snd (resolveConflicts lying_peer example_node)) = []"
  by (simp add: example_node_eq resolveConflicts_def lying_peer_def validChain_def)

text \<open>
  Claim C2, as amended.  The chain is not empty and its first block has index 1 once
  the object is constructed; \<^verbatim>\<open>newTransaction\<close>, \<^verbatim>\<open>newBlock\<close> and \<^verbatim>\<open>registerNode\<close>
  preserve this (\<^verbatim>\<open>proofOfWork\<close> reads and writes no state), and so does
  \<^verbatim>\<open>resolveConflicts\<close> provided every candidate it can adopt (a chain sent in an
  \<^verbatim>\<open>ok\<close> response that passes \<^verbatim>\<open>validChain\<close> with a reported length above the length
  of the local chain) is itself non-empty with a first block of index 1.  The validator
  does not look at the first block of a candidate, and an adopted candidate replaces
  the chain as a whole.
\<close>

theorem genesis_invariant_preserved:
  "chain_invariant (constructor now)
   \<and> (chain_invariant st \<longrightarrow>
         chain_invariant (snd (newTransaction s r a st))
       \<and> chain_invariant (snd (newBlock prf ph now st))
       \<and> chain_invariant (snd (registerNode parse address st))
       \<and> ((\<forall>node \<in> set (nodes st). \<forall>len c.
              fetch (chain_url node) = Response True (Payload len c) \<and> validChain c
              \<and> int (length (chain st)) < len \<longrightarrow> c \<noteq> [] \<and> index (hd c) = 1)
           \<longrightarrow> chain_invariant (snd (resolveConflicts fetch st))))"
proof -
  have "chain_invariant (constructor now)"
    by (simp add: chain_invariant_def constructor_def newBlock_def truthy_def Let_def)
  moreover have "chain_invariant (snd (newTransaction s r a st))" if "chain_invariant st"
    using that by (simp add: chain_invariant_def newTransaction_def Let_def)
  moreover have "chain_invariant (snd (newBlock prf ph now st))" if "chain_invariant st"
    using that by (simp add: chain_invariant_def newBlock_def Let_def)
  moreover have "chain_invariant (snd (registerNode parse address st))" if "chain_invariant st"
    using that by (simp add: chain_invariant_def registerNode_def split: option.splits)
  moreover have "chain_invariant (snd (resolveConflicts fetch st))"
    if "chain_invariant st" and "\<forall>node \<in> set (nodes st). \<forall>len c.
              fetch (chain_url node) = Response True (Payload len c) \<and> validChain c
              \<and> int (length (chain st)) < len \<longrightarrow> c \<noteq> [] \<and> index (hd c) = 1"
    using resolveConflicts_result [of fetch st] that
    by (fastforce simp: chain_invariant_def)
  ultimately show ?thesis by blast
qed

text \<open>
  The example node keeps the invariant through each operation, and through the adoption
  of the honest peer's chain of two blocks, which begins with a block of index 1.
\<close>

theorem genesis_invariant_preserved_witness:
  "chain_invariant (constructor 0)
   \<and> chain_invariant example_node
   \<and> chain_invariant (snd (newTransaction ''alice'' ''bob'' 5 example_node))
   \<and> chain_invariant (snd (newBlock 35293 None 0 example_node))
   \<and> chain_invariant (snd (registerNode example_parser ''http://10.0.0.5:5000/'' example_node))
   \<and> chain (snd (resolveConflicts honest_peer example_node)) = [peer_genesis, peer_second]
   \<and> chain_invariant (snd (resolveConflicts honest_peer example_node))"
proof -
  have inv: "chain_invariant example_node"
    by (simp add: chain_invariant_def example_node_eq) (simp add: peer_genesis_def)
  have candidates: "\<forall>node \<in> set (nodes example_node). \<forall>len c.
      honest_peer (chain_url node) = Response True (Payload len c) \<and> validChain c
      \<and> int (length (chain example_node)) < len \<longrightarrow> c \<noteq> [] \<and> index (hd c) = 1"
    by (simp add: honest_peer_def) (auto simp: peer_genesis_def)
  from genesis_invariant_preserved
         [of 0 example_node "''alice''" "''bob''" 5 35293 None example_parser
             "''http://10.0.0.5:5000/''" honest_peer]
  have "chain_invariant (constructor 0)"
    and "chain_invariant example_node \<longrightarrow>
           chain_invariant (snd (newTransaction ''alice'' ''bob'' 5 example_node))
         \<and> chain_invariant (snd (newBlock 35293 None 0 example_node))
         \<and> chain_invariant
             (snd (registerNode example_parser ''http://10.0.0.5:5000/'' example_node))
         \<and> ((\<forall>node \<in> set (nodes example_node). \<forall>len c.
                honest_peer (chain_url node) = Response True (Payload len c) \<and> validChain c
                \<and> int (length (chain example_node)) < len \<longrightarrow> c \<noteq> [] \<and> index (hd c) = 1)
             \<longrightarrow> chain_invariant (snd (resolveConflicts honest_peer example_node)))"
    by blast+
  with inv candidates show ?thesis
    by (simp add: resolveConflicts_honest_peer)
qed

text \<open>
  The claim as it was written has \<^verbatim>\<open>resolveConflicts\<close> preserve the invariant for every
  candidate.  The foreign peer reports the length its chain has, and its chain passes
  \<^verbatim>\<open>validChain\<close>; the node adopts it, and its first block then has index 7.
\<close>

theorem foreign_chain_breaks_invariant:
  "chain_invariant example_node
   \<and> validChain [foreign_first, foreign_second]
   \<and> fst (resolveConflicts foreign_peer example_node) = Inr True
   \<and> index (hd (chain (snd (resolveConflicts foreign_peer example_node)))) = 7
   \<and> \<not> chain_invariant (snd (resolveConflicts foreign_peer example_node))"
proof -
  have inv: "chain_invariant example_node"
    by (simp add: chain_invariant_def example_node_eq) (simp add: peer_genesis_def)
  have first: "index (hd (chain (snd (resolveConflicts foreign_peer example_node)))) = 7"
    by (simp only: resolveConflicts_foreign_peer) (simp add: foreign_first_def)
  then have "\<not> chain_invariant (snd (resolveConflicts foreign_peer example_node))"
    by (simp add: chain_invariant_def)
  with inv first validChain_foreign show ?thesis
    by (simp add: resolveConflicts_foreign_peer)
qed

end
